theory Spec2Isabelle
  imports Main "HOL-Library.Word"
begin

section \<open>Admission control of the code reviewer: configuration and the rate limiter\<close>

text \<open>
  The shared module exports one configuration object,
  \<^verbatim>\<open>RATE_LIMIT = { MAX_REQUESTS: 10, WINDOW_MS: 60 * 60 * 1000, MAX_CODE_LENGTH: 10000 }\<close>.
  Counters, quotas and millisecond timestamps are integers of JavaScript; they are
  modelled as \<open>int\<close>.
\<close>

definition MAX_REQUESTS :: int where
  "MAX_REQUESTS = 10"

definition WINDOW_MS :: int where
  "WINDOW_MS = 60 * 60 * 1000"

definition MAX_CODE_LENGTH :: nat where
  "MAX_CODE_LENGTH = 10000"

text \<open>
  A stored rate-limit record \<^verbatim>\<open>{ count, resetTime }\<close> and the object that
  \<^verbatim>\<open>checkRateLimit\<close> returns, \<^verbatim>\<open>{ allowed, remaining, resetTime }\<close>.
  Both have a field \<open>resetTime\<close>; the theory writes \<open>rate_record.resetTime\<close> and
  \<open>rate_result.resetTime\<close> to tell them apart.
\<close>

record rate_record =
  count :: int
  resetTime :: int

record rate_result =
  allowed :: bool
  remaining :: int
  resetTime :: int

text \<open>
  \<^verbatim>\<open>rateLimitStore = new Map()\<close>: a map from keys to records. The module-level map
  is mutable shared state; the model passes it in and returns it updated.
\<close>

type_synonym 'k store = "'k \<rightharpoonup> rate_record"

text \<open>
  \<^verbatim>\<open>checkRateLimit(key, maxRequests)\<close>. \<open>now\<close> is the value of \<^verbatim>\<open>Date.now()\<close>
  read at the start of the call. The three branches are the three returns of the source,
  in its order; \<^verbatim>\<open>record.count++\<close> mutates the object held by the map, which is the
  update of the store at \<open>key\<close>.
\<close>

definition checkRateLimit ::
  "'k \<Rightarrow> int \<Rightarrow> int \<Rightarrow> 'k store \<Rightarrow> rate_result \<times> 'k store" where
  "checkRateLimit key maxRequests now st =
     (let fresh = (\<lparr>allowed = True, remaining = maxRequests - 1,
                     resetTime = now + WINDOW_MS\<rparr>,
                   st(key \<mapsto> \<lparr>count = 1, rate_record.resetTime = now + WINDOW_MS\<rparr>))
      in case st key of
           None \<Rightarrow> fresh
         | Some record \<Rightarrow>
             if now > rate_record.resetTime record then fresh
             else if count record \<ge> maxRequests then
               (\<lparr>allowed = False, remaining = 0,
                 resetTime = rate_record.resetTime record\<rparr>, st)
             else
               (let record' = record\<lparr>count := count record + 1\<rparr>
                in (\<lparr>allowed = True, remaining = maxRequests - count record',
                     resetTime = rate_record.resetTime record'\<rparr>,
                    st(key \<mapsto> record'))))"

text \<open>The default of the second parameter, \<^verbatim>\<open>maxRequests = RATE_LIMIT.MAX_REQUESTS\<close>.\<close>

definition checkRateLimit_default :: "'k \<Rightarrow> int \<Rightarrow> 'k store \<Rightarrow> rate_result \<times> 'k store" where
  "checkRateLimit_default key now st = checkRateLimit key MAX_REQUESTS now st"

text \<open>
  The testable properties of the rate limiter speak of calling it several times in a
  row for one identity and one quota. \<open>run_checks\<close> is that sequence of calls: one
  call of \<^verbatim>\<open>checkRateLimit\<close> per clock reading in the list, each on the store the
  previous call left, collecting the returned objects in order.
\<close>

fun run_checks ::
  "'k \<Rightarrow> int \<Rightarrow> int list \<Rightarrow> 'k store \<Rightarrow> rate_result list \<times> 'k store" where
  "run_checks key q [] st = ([], st)"
| "run_checks key q (now # nows) st =
     (let (r, st') = checkRateLimit key q now st;
          (rs, st'') = run_checks key q nows st'
      in (r # rs, st''))"

text \<open>
  The bound the data model states for a record: the record of \<open>key\<close>, when there is one,
  has a count of at most \<open>q\<close>.
\<close>

definition count_within :: "'k store \<Rightarrow> 'k \<Rightarrow> int \<Rightarrow> bool" where
  "count_within st key q = (case st key of None \<Rightarrow> True | Some r \<Rightarrow> count r \<le> q)"

section \<open>Strings and values of JavaScript\<close>

text \<open>
  A JavaScript string is a sequence of UTF-16 code units, and \<^verbatim>\<open>length\<close> counts code
  units: the submitted code, which comes from the parsed JSON body, is a list of 16-bit
  words. Header values and socket addresses are different: Node decodes the bytes of a
  header as Latin-1, so each of their code units is below 256, and they are \<open>string\<close>s
  (lists of 8-bit characters), as are the string literals of the source.
\<close>

type_synonym jsstring = "16 word list"

text \<open>
  \<^verbatim>\<open>String.prototype.trim\<close> removes, at both ends, the code units that are WhiteSpace
  or LineTerminator in ECMAScript: TAB, LF, VT, FF, CR, SPACE, NBSP, the Unicode space
  separators U+1680, U+2000 to U+200A, U+202F, U+205F, U+3000, the separators U+2028 and
  U+2029, and the byte order mark U+FEFF.
\<close>

definition isWhiteSpace :: "nat \<Rightarrow> bool" where
  "isWhiteSpace u =
     (u \<in> {0x09, 0x0A, 0x0B, 0x0C, 0x0D, 0x20, 0xA0, 0x1680, 0x2028, 0x2029,
            0x202F, 0x205F, 0x3000, 0xFEFF}
      \<or> (0x2000 \<le> u \<and> u \<le> 0x200A))"

definition trimBy :: "('a \<Rightarrow> nat) \<Rightarrow> 'a list \<Rightarrow> 'a list" where
  "trimBy unit s =
     rev (dropWhile (\<lambda>c. isWhiteSpace (unit c)) (rev (dropWhile (\<lambda>c. isWhiteSpace (unit c)) s)))"

text \<open>\<open>trim\<close> on a string of the body, \<open>trim_header\<close> on a Latin-1 header value.\<close>

definition trim :: "jsstring \<Rightarrow> jsstring" where
  "trim s = trimBy unat s"

definition trim_header :: "string \<Rightarrow> string" where
  "trim_header s = trimBy of_char s"

text \<open>
  \<^verbatim>\<open>String.prototype.toLowerCase\<close> on Latin-1 code units: Unicode maps A to Z and the
  capital letters U+00C0 to U+00DE (the multiplication sign U+00D7 apart) to the code unit
  32 above, and leaves every other code unit below 256 as it is.
\<close>

definition toLowerCase :: "string \<Rightarrow> string" where
  "toLowerCase s =
     map (\<lambda>c. let u = (of_char c :: nat)
              in if (0x41 \<le> u \<and> u \<le> 0x5A) \<or> (0xC0 \<le> u \<and> u \<le> 0xDE \<and> u \<noteq> 0xD7)
                 then char_of (u + 0x20) else c) s"

text \<open>\<^verbatim>\<open>s.includes(p)\<close>: \<open>p\<close> occurs in \<open>s\<close> as a contiguous substring.\<close>

fun startsWith :: "'a list \<Rightarrow> 'a list \<Rightarrow> bool" where
  "startsWith s [] = True"
| "startsWith [] (p # ps) = False"
| "startsWith (c # cs) (p # ps) = (c = p \<and> startsWith cs ps)"

fun includes_js :: "'a list \<Rightarrow> 'a list \<Rightarrow> bool" where
  "includes_js [] p = (p = [])"
| "includes_js (c # cs) p = (startsWith (c # cs) p \<or> includes_js cs p)"

text \<open>
  \<^verbatim>\<open>s.split(sep)\<close> for a separator of one character; the result is never empty
  (\<^verbatim>\<open>"".split(",")\<close> is \<^verbatim>\<open>[""]\<close>).
\<close>

fun split :: "char \<Rightarrow> string \<Rightarrow> string list" where
  "split sep [] = [[]]"
| "split sep (c # cs) =
     (if c = sep then [] # split sep cs
      else (case split sep cs of [] \<Rightarrow> [[c]] | w # ws \<Rightarrow> (c # w) # ws))"

text \<open>
  The values a field of the parsed JSON body can hold. For a number only its being zero
  matters here (truthiness), and for an object or array nothing but its type.
\<close>

datatype jsval = JUndefined | JNull | JBool bool | JNum int | JStr jsstring | JObj

fun typeof :: "jsval \<Rightarrow> string" where
  "typeof JUndefined = ''undefined''"
| "typeof JNull = ''object''"
| "typeof (JBool b) = ''boolean''"
| "typeof (JNum n) = ''number''"
| "typeof (JStr s) = ''string''"
| "typeof JObj = ''object''"

fun truthy :: "jsval \<Rightarrow> bool" where
  "truthy JUndefined = False"
| "truthy JNull = False"
| "truthy (JBool b) = b"
| "truthy (JNum n) = (n \<noteq> 0)"
| "truthy (JStr s) = (s \<noteq> [])"
| "truthy JObj = True"

datatype js_error = TypeError

section \<open>The input validator\<close>

record validation =
  valid :: bool
  error :: "string option"

text \<open>
  \<^verbatim>\<open>validateInput(code)\<close>: the source's three tests in its order. The template literal of
  the third message interpolates \<^verbatim>\<open>RATE_LIMIT.MAX_CODE_LENGTH\<close>, which is 10000. The last
  case is not reached: a value that passes the first test is a string.
\<close>

definition validateInput :: "jsval \<Rightarrow> validation" where
  "validateInput code =
     (if \<not> truthy code \<or> typeof code \<noteq> ''string'' then
        \<lparr>valid = False, error = Some ''Code is required''\<rparr>
      else case code of
        JStr s \<Rightarrow>
          if length (trim s) = 0 then
            \<lparr>valid = False, error = Some ''Code cannot be empty''\<rparr>
          else if length s > MAX_CODE_LENGTH then
            \<lparr>valid = False,
             error = Some ''Code is too long. Maximum 10000 characters allowed.''\<rparr>
          else \<lparr>valid = True, error = None\<rparr>
      | _ \<Rightarrow> \<lparr>valid = False, error = Some ''Code is required''\<rparr>)"

section \<open>Requests, the identity resolver and the bot heuristic\<close>

text \<open>
  Node gives a header as a string, as an array of strings, or not at all. A request has
  its headers object (\<open>None\<close> when \<^verbatim>\<open>req.headers\<close> is \<^verbatim>\<open>undefined\<close> or \<^verbatim>\<open>null\<close>: reading
  a property of it throws a TypeError), its method, its socket (\<open>None\<close> when absent: the
  source reads it with \<^verbatim>\<open>?.\<close>) with the peer address, and its parsed body (\<open>None\<close> when
  \<^verbatim>\<open>req.body\<close> is \<^verbatim>\<open>undefined\<close> or \<^verbatim>\<open>null\<close>: destructuring it throws a TypeError).
\<close>

datatype hval = HStr string | HArr "string list"

record net_socket =
  remoteAddress :: "string option"

record request =
  headers :: "(string \<rightharpoonup> hval) option" req_method :: string
  socket :: "net_socket option" body :: "(string \<rightharpoonup> jsval) option"

text \<open>
  Truthiness of what a header lookup returns: \<^verbatim>\<open>undefined\<close> and the empty string are
  falsy, a non-empty string and every array (the empty one too) are truthy.
\<close>

fun truthy_header :: "hval option \<Rightarrow> bool" where
  "truthy_header None = False"
| "truthy_header (Some (HStr s)) = (s \<noteq> [])"
| "truthy_header (Some (HArr a)) = True"

text \<open>
  The resolved key is a string, or \<^verbatim>\<open>undefined\<close> when the source reads element 0 of an
  empty array.
\<close>

datatype key = KUndefined | KStr string

fun index0 :: "string list \<Rightarrow> key" where
  "index0 [] = KUndefined"
| "index0 (x # xs) = KStr x"

text \<open>
  \<^verbatim>\<open>getRateLimitKey(req)\<close>. The source initialises \<^verbatim>\<open>ip\<close> to \<^verbatim>\<open>'unknown'\<close> and then
  assigns it in every branch of the \<^verbatim>\<open>if\<close> chain; the model keeps that initial value
  where a truthy header would be \<^verbatim>\<open>undefined\<close>, which cannot happen.
\<close>

definition getRateLimitKey :: "request \<Rightarrow> js_error + key" where
  "getRateLimitKey req =
     (case headers req of
        None \<Rightarrow> Inl TypeError
      | Some h \<Rightarrow>
          (let forwarded = h ''x-forwarded-for'';
               realIp = h ''x-real-ip'';
               connectionIp = (case socket req of None \<Rightarrow> None | Some sock \<Rightarrow> remoteAddress sock)
           in Inr
             (if truthy_header forwarded then
                (case forwarded of
                   Some (HArr a) \<Rightarrow> index0 a
                 | Some (HStr s) \<Rightarrow> KStr (trim_header (hd (split CHR '','' s)))
                 | None \<Rightarrow> KStr ''unknown'')
              else if truthy_header realIp then
                (case realIp of
                   Some (HArr a) \<Rightarrow> index0 a
                 | Some (HStr s) \<Rightarrow> KStr s
                 | None \<Rightarrow> KStr ''unknown'')
              else (case connectionIp of
                      Some a \<Rightarrow> if a \<noteq> [] then KStr a else KStr ''local''
                    | None \<Rightarrow> KStr ''local''))))"

definition botPatterns :: "string list" where
  "botPatterns =
     [''bot'', ''crawler'', ''spider'', ''scraper'', ''curl'', ''wget'',
      ''python'', ''java'', ''go-http'', ''postman'', ''insomnia'',
      ''headless'', ''phantom'', ''selenium'', ''puppeteer'']"

text \<open>
  \<^verbatim>\<open>detectBot(req)\<close>. \<^verbatim>\<open>req.headers['user-agent']?.toLowerCase() || ''\<close> is the empty
  string for an absent header, the lower-cased value for a string, and a TypeError for an
  array, which has no method \<^verbatim>\<open>toLowerCase\<close>. \<^verbatim>\<open>!referer\<close> holds when the header is
  falsy, since \<^verbatim>\<open>referer\<close> is then the empty string.
\<close>

definition detectBot :: "request \<Rightarrow> js_error + bool" where
  "detectBot req =
     (case headers req of
        None \<Rightarrow> Inl TypeError
      | Some h \<Rightarrow>
          (case h ''user-agent'' of
             Some (HArr a) \<Rightarrow> Inl TypeError
           | ua \<Rightarrow>
               (let userAgent = (case ua of Some (HStr s) \<Rightarrow> toLowerCase s | _ \<Rightarrow> []);
                    referer = h ''referer'';
                    isBotUA = list_ex (\<lambda>pattern. includes_js userAgent pattern) botPatterns;
                    hasAcceptHeader = truthy_header (h ''accept'');
                    hasAcceptLanguage = truthy_header (h ''accept-language'');
                    suspiciousHeaders = (\<not> hasAcceptHeader \<and> \<not> hasAcceptLanguage);
                    noReferer = (\<not> truthy_header referer \<and> req_method req = ''POST'')
                in Inr (isBotUA \<or> (suspiciousHeaders \<and> noReferer)))))"

section \<open>The request handler\<close>

text \<open>
  What the handler takes from its environment: the configured credential
  \<^verbatim>\<open>process.env.OPENAI_API_KEY\<close>, the rendering \<^verbatim>\<open>new Date(t).toISOString()\<close> of a
  timestamp, and the completion client \<^verbatim>\<open>callOpenAI(code, apiKey)\<close>, whose outcome depends
  on the network: it returns the review, or throws an \<^verbatim>\<open>Error\<close> with a message, or
  throws something that is not an \<^verbatim>\<open>Error\<close>.
\<close>

datatype outcome = Returned string | ThrewError string | ThrewOther

record runtime =
  OPENAI_API_KEY :: "string option"
  toISOString :: "int \<Rightarrow> string"
  callOpenAI :: "jsval \<Rightarrow> string \<Rightarrow> outcome"

text \<open>
  The JSON bodies of the responses: \<^verbatim>\<open>{ error }\<close>, the 429 body
  \<^verbatim>\<open>{ error, message, resetTime, isBot }\<close>, the 200 body
  \<^verbatim>\<open>{ review, rateLimit: { remaining, resetTime } }\<close> and the 500 body
  \<^verbatim>\<open>{ error, message }\<close>.
\<close>

datatype json_body =
    ErrorBody "string option"
  | RateLimitBody string string int bool
  | ReviewBody string int int
  | FailureBody string string

record response =
  status :: nat
  json :: json_body

text \<open>
  The state of the process that the handler touches: the rate-limit store, and the calls
  made to the completion client so far (the code and the credential of each).
\<close>

record server_state =
  rateLimitStore :: "key store"
  outbound :: "(jsval \<times> string) list"

definition effectiveMaxRequests :: "bool \<Rightarrow> int" where
  "effectiveMaxRequests isBot = (if isBot then MAX_REQUESTS div 2 else MAX_REQUESTS)"

text \<open>
  The serverless handler \<^verbatim>\<open>handler(req, res)\<close>, with \<open>now\<close> the clock reading of its call
  of \<^verbatim>\<open>checkRateLimit\<close>. It returns the response sent, or the error thrown, and the state
  it leaves: a store updated by \<^verbatim>\<open>checkRateLimit\<close> stays updated whatever follows. The
  local development server runs the same steps without the method test.
\<close>

definition handler ::
  "runtime \<Rightarrow> int \<Rightarrow> request \<Rightarrow> server_state \<Rightarrow> (js_error + response) \<times> server_state" where
  "handler rt now req s =
     (if req_method req \<noteq> ''POST'' then
        (Inr \<lparr>status = 405, json = ErrorBody (Some ''Method not allowed'')\<rparr>, s)
      else case detectBot req of
        Inl e \<Rightarrow> (Inl e, s)
      | Inr isBot \<Rightarrow>
      (case getRateLimitKey req of
        Inl e \<Rightarrow> (Inl e, s)
      | Inr rateLimitKey \<Rightarrow>
      (let (rateLimit, store') =
             checkRateLimit rateLimitKey (effectiveMaxRequests isBot) now (rateLimitStore s);
           s' = s\<lparr>rateLimitStore := store'\<rparr>
       in if \<not> allowed rateLimit then
            (let message =
                   (if isBot then ''Bot detected. Rate limit exceeded for automated requests.''
                    else ''Too many requests. Please try again after '' @
                         toISOString rt (rate_result.resetTime rateLimit))
             in (Inr \<lparr>status = 429,
                      json = RateLimitBody ''Rate limit exceeded'' message
                               (rate_result.resetTime rateLimit) isBot\<rparr>, s'))
          else case body req of
            None \<Rightarrow> (Inl TypeError, s')
          | Some b \<Rightarrow>
          (let code = (case b ''code'' of None \<Rightarrow> JUndefined | Some v \<Rightarrow> v);
               validation = validateInput code
           in if \<not> valid validation then
                (Inr \<lparr>status = 400, json = ErrorBody (error validation)\<rparr>, s')
              else case OPENAI_API_KEY rt of
                None \<Rightarrow>
                  (Inr \<lparr>status = 500, json = ErrorBody (Some ''Server configuration error'')\<rparr>, s')
              | Some apiKey \<Rightarrow>
                  if apiKey = [] then
                    (Inr \<lparr>status = 500, json = ErrorBody (Some ''Server configuration error'')\<rparr>, s')
                  else
                    (let s'' = s'\<lparr>outbound := outbound s' @ [(code, apiKey)]\<rparr>
                     in case callOpenAI rt code apiKey of
                          Returned review \<Rightarrow>
                            (Inr \<lparr>status = 200,
                                  json = ReviewBody review (remaining rateLimit)
                                           (rate_result.resetTime rateLimit)\<rparr>, s'')
                        | ThrewError msg \<Rightarrow>
                            (Inr \<lparr>status = 500, json = FailureBody ''Failed to review code'' msg\<rparr>, s'')
                        | ThrewOther \<Rightarrow>
                            (Inr \<lparr>status = 500,
                                  json = FailureBody ''Failed to review code'' ''Internal server error''\<rparr>,
                             s''))))))"

text \<open>
  Worked examples for the handler, all from one address behind a proxy: a POST from a
  browser whose body has the empty string as \<open>code\<close>, a POST from curl with one
  character of code, a POST from a browser that has no parsed body, and a runtime with a
  credential and a stubbed completion client.
\<close>

definition browser_request :: request where
  "browser_request =
     \<lparr>headers = Some [''user-agent'' \<mapsto> HStr ''Mozilla/5.0'', ''accept'' \<mapsto> HStr ''text/html'',
                       ''x-forwarded-for'' \<mapsto> HStr ''203.0.113.7''],
      req_method = ''POST'', socket = None, body = Some [''code'' \<mapsto> JStr []]\<rparr>"

definition curl_request :: request where
  "curl_request =
     \<lparr>headers = Some [''user-agent'' \<mapsto> HStr ''Curl/8.0'', ''accept'' \<mapsto> HStr ''*/*'',
                       ''x-forwarded-for'' \<mapsto> HStr ''203.0.113.7''],
      req_method = ''POST'', socket = None, body = Some [''code'' \<mapsto> JStr [0x78]]\<rparr>"


definition stub_runtime :: runtime where
  "stub_runtime =
     \<lparr>OPENAI_API_KEY = Some ''sk-test'', toISOString = (\<lambda>t. ''1970-01-01T01:00:01.000Z''),
      callOpenAI = (\<lambda>code apiKey. Returned ''ok'')\<rparr>"

section \<open>Properties of the rate limiter\<close>

lemma checkRateLimit_absent:
  "st key = None \<Longrightarrow>
   checkRateLimit key q now st =
     (\<lparr>allowed = True, remaining = q - 1, resetTime = now + WINDOW_MS\<rparr>,
      st(key \<mapsto> \<lparr>count = 1, rate_record.resetTime = now + WINDOW_MS\<rparr>))"
  by (simp add: checkRateLimit_def)

lemma checkRateLimit_expired:
  "st key = Some r \<Longrightarrow> rate_record.resetTime r < now \<Longrightarrow>
   checkRateLimit key q now st =
     (\<lparr>allowed = True, remaining = q - 1, resetTime = now + WINDOW_MS\<rparr>,
      st(key \<mapsto> \<lparr>count = 1, rate_record.resetTime = now + WINDOW_MS\<rparr>))"
  by (simp add: checkRateLimit_def)

lemma checkRateLimit_exhausted:
  "st key = Some r \<Longrightarrow> now \<le> rate_record.resetTime r \<Longrightarrow> q \<le> count r \<Longrightarrow>
   checkRateLimit key q now st =
     (\<lparr>allowed = False, remaining = 0, resetTime = rate_record.resetTime r\<rparr>, st)"
  by (simp add: checkRateLimit_def)

lemma checkRateLimit_counted:
  "st key = Some r \<Longrightarrow> now \<le> rate_record.resetTime r \<Longrightarrow> count r < q \<Longrightarrow>
   checkRateLimit key q now st =
     (\<lparr>allowed = True, remaining = q - (count r + 1), resetTime = rate_record.resetTime r\<rparr>,
      st(key \<mapsto> r\<lparr>count := count r + 1\<rparr>))"
  by (simp add: checkRateLimit_def Let_def)

subsection \<open>A full window of calls\<close>

lemma run_checks_live:
  "st key = Some \<lparr>count = c, rate_record.resetTime = R\<rparr> \<Longrightarrow> \<forall>t\<in>set ts. t \<le> R \<Longrightarrow>
   c + int (length ts) \<le> q \<Longrightarrow>
   run_checks key q ts st =
     (map (\<lambda>i. \<lparr>allowed = True, remaining = q - c - 1 - int i, resetTime = R\<rparr>) [0..<length ts],
      st(key \<mapsto> \<lparr>count = c + int (length ts), rate_record.resetTime = R\<rparr>))"
proof (induction ts arbitrary: st c)
  case Nil
  then show ?case by (simp add: map_upd_triv) 
next
  case (Cons t ts)
  let ?r = "\<lparr>count = c, rate_record.resetTime = R\<rparr>"
  let ?st' = "st(key \<mapsto> \<lparr>count = c + 1, rate_record.resetTime = R\<rparr>)"
  have step: "checkRateLimit key q t st =
      (\<lparr>allowed = True, remaining = q - (c + 1), resetTime = R\<rparr>, ?st')"
    using checkRateLimit_counted [of st key ?r t q] Cons.prems by simp
  have rest: "run_checks key q ts ?st' =
      (map (\<lambda>i. \<lparr>allowed = True, remaining = q - (c + 1) - 1 - int i, resetTime = R\<rparr>) [0..<length ts],
       ?st'(key \<mapsto> \<lparr>count = (c + 1) + int (length ts), rate_record.resetTime = R\<rparr>))"
    using Cons.prems by (intro Cons.IH) auto
  have arith: "c + 1 + int (length ts) = c + int (length (t # ts))"
    "\<And>i. q - (c + 1) - 1 - int i = q - c - 1 - int (Suc i)" "q - (c + 1) = q - c - 1 - int 0"
    by simp_all
  show ?case
    by (simp add: step rest map_upt_Suc add.assoc del: upt_Suc) (simp add: fun_upd_def)
qed

lemma run_checks_append:
  "run_checks key q (xs @ ys) st =
     (let (rs, st') = run_checks key q xs st; (rs', st'') = run_checks key q ys st'
      in (rs @ rs', st''))"
  by (induction xs arbitrary: st) (simp_all add: Let_def split: prod.splits)

lemma run_checks_quota:
  assumes q: "1 \<le> q"
    and fresh: "st key = None \<or> (\<exists>r. st key = Some r \<and> rate_record.resetTime r < t0)"
    and len: "length ts = nat q"
    and window: "\<forall>t\<in>set ts. t \<le> t0 + WINDOW_MS"
  shows "map allowed (fst (run_checks key q (t0 # ts) st)) = replicate (nat q) True @ [False]
       \<and> map remaining (fst (run_checks key q (t0 # ts) st)) =
           map (\<lambda>i. q - 1 - int i) [0..<nat q] @ [0]"
proof -
  let ?R = "t0 + WINDOW_MS"
  let ?st1 = "st(key \<mapsto> \<lparr>count = 1, rate_record.resetTime = ?R\<rparr>)"
  have first: "checkRateLimit key q t0 st =
      (\<lparr>allowed = True, remaining = q - 1, resetTime = ?R\<rparr>, ?st1)"
    using fresh checkRateLimit_absent [of st key q t0] checkRateLimit_expired [of st key _ t0 q]
    by auto
  from len q obtain ms tl where ts: "ts = ms @ [tl]" and lms: "length ms = nat q - 1"
    by (cases ts rule: rev_cases) auto
  let ?st2 = "st(key \<mapsto> \<lparr>count = q, rate_record.resetTime = ?R\<rparr>)"
  have cnt: "1 + int (length ms) = q" using lms q by simp
  have "run_checks key q ms ?st1 =
      (map (\<lambda>i. \<lparr>allowed = True, remaining = q - 1 - 1 - int i, resetTime = ?R\<rparr>) [0..<length ms],
       ?st1(key \<mapsto> \<lparr>count = 1 + int (length ms), rate_record.resetTime = ?R\<rparr>))"
    using window ts lms q by (intro run_checks_live) auto
  then have mid: "run_checks key q ms ?st1 =
      (map (\<lambda>i. \<lparr>allowed = True, remaining = q - 1 - 1 - int i, resetTime = ?R\<rparr>) [0..<length ms], ?st2)"
    by (simp add: cnt)
  have last: "checkRateLimit key q tl ?st2 =
      (\<lparr>allowed = False, remaining = 0, resetTime = ?R\<rparr>, ?st2)"
    using checkRateLimit_exhausted [of ?st2 key "\<lparr>count = q, rate_record.resetTime = ?R\<rparr>" tl q]
      window ts by simp
  have all: "fst (run_checks key q (t0 # ts) st) =
      \<lparr>allowed = True, remaining = q - 1, resetTime = ?R\<rparr> #
      map (\<lambda>i. \<lparr>allowed = True, remaining = q - 1 - 1 - int i, resetTime = ?R\<rparr>) [0..<length ms]
      @ [\<lparr>allowed = False, remaining = 0, resetTime = ?R\<rparr>]"
    by (simp add: ts first run_checks_append mid last)
  have nq: "nat q = Suc (length ms)" using lms q by simp
  show ?thesis
    unfolding all by (simp add: nq map_upt_Suc comp_def map_replicate_const del: upt_Suc)
qed

text \<open>
  Claim C1. For every identity and every quota \<open>q \<ge> 1\<close>: start from a store with no
  record for the identity, or with an expired one, call \<^verbatim>\<open>checkRateLimit\<close> at \<open>t0\<close> and
  then \<open>q\<close> more times at clock readings inside the window that the first call opened
  (none after \<open>t0 + WINDOW_MS\<close>). The first \<open>q\<close> calls are allowed, with \<open>remaining\<close>
  equal to \<open>q - 1, q - 2, \<dots>, 0\<close> (strictly decreasing), and call \<open>q + 1\<close> is rejected with
  \<open>remaining = 0\<close>.
\<close>

theorem quota_calls_allowed_then_rejected:
  assumes "1 \<le> q"
    and "st key = None \<or> (\<exists>r. st key = Some r \<and> rate_record.resetTime r < t0)"
    and "length ts = nat q"
    and "\<forall>t\<in>set ts. t \<le> t0 + WINDOW_MS"
  shows "map allowed (fst (run_checks key q (t0 # ts) st)) = replicate (nat q) True @ [False]
       \<and> map remaining (fst (run_checks key q (t0 # ts) st)) =
           map (\<lambda>i. q - 1 - int i) [0..<nat q] @ [0]
       \<and> (\<forall>i. Suc i < nat q \<longrightarrow>
              remaining (fst (run_checks key q (t0 # ts) st) ! Suc i) <
              remaining (fst (run_checks key q (t0 # ts) st) ! i))"
proof -
  let ?rs = "fst (run_checks key q (t0 # ts) st)"
  have lists: "map allowed ?rs = replicate (nat q) True @ [False]"
    "map remaining ?rs = map (\<lambda>i. q - 1 - int i) [0..<nat q] @ [0]"
    using run_checks_quota [of q st key t0 ts] assms by simp_all
  have len: "length ?rs = Suc (nat q)"
    using arg_cong [OF lists(2), of length] by simp
  have nth: "remaining (?rs ! i) = q - 1 - int i" if "i < nat q" for i
  proof -
    have "remaining (?rs ! i) = map remaining ?rs ! i"
      using that len by simp
    also have "\<dots> = q - 1 - int i"
      unfolding lists(2) using that by (simp add: nth_append)
    finally show ?thesis .
  qed
  have "remaining (?rs ! Suc i) < remaining (?rs ! i)" if "Suc i < nat q" for i
    using that nth [of i] nth [of "Suc i"] by simp
  with lists show ?thesis by blast
qed

theorem quota_calls_witness:
  "map allowed (fst (run_checks ''203.0.113.7'' 3 [1000, 1001, 2000, 3601000] Map.empty)) =
     [True, True, True, False]
   \<and> map remaining (fst (run_checks ''203.0.113.7'' 3 [1000, 1001, 2000, 3601000] Map.empty)) =
     [2, 1, 0, 0]"
  using quota_calls_allowed_then_rejected [of 3 Map.empty "''203.0.113.7''" 1000 "[1001, 2000, 3601000]"]
  by (simp add: WINDOW_MS_def upt_rec eval_nat_numeral)

subsection \<open>Rejected calls\<close>

lemma checkRateLimit_count_within:
  "1 \<le> q \<Longrightarrow> count_within st key q \<Longrightarrow> count_within (snd (checkRateLimit key q now st)) key q"
  by (auto simp: checkRateLimit_def count_within_def Let_def split: option.splits)

lemma run_checks_count_within:
  "1 \<le> q \<Longrightarrow> count_within st key q \<Longrightarrow> count_within (snd (run_checks key q ts st)) key q"
proof (induction ts arbitrary: st)
  case Nil
  then show ?case by simp
next
  case (Cons t ts)
  have "count_within (snd (checkRateLimit key q t st)) key q"
    using Cons.prems by (rule checkRateLimit_count_within)
  from Cons.IH [OF Cons.prems(1) this] show ?case
    by (simp add: Let_def case_prod_beta)
qed

text \<open>
  Claim C2, as amended. A call that finds a record with \<open>count \<ge> quota\<close> whose
  \<open>resetTime\<close> has not passed returns \<open>allowed = false\<close> and \<open>remaining = 0\<close> and leaves
  the store as it was (so neither \<open>resetTime\<close> nor \<open>count\<close> changes); every rejected call
  leaves the store as it was. For a quota of at least 1, every allowed call leaves a count
  of at most the quota, and a count that is within the quota stays within it through any
  sequence of calls under that quota.
\<close>

theorem rejected_call_leaves_record:
  "(\<forall>r. st key = Some r \<and> q \<le> count r \<and> now \<le> rate_record.resetTime r \<longrightarrow>
       checkRateLimit key q now st =
         (\<lparr>allowed = False, remaining = 0, resetTime = rate_record.resetTime r\<rparr>, st))
   \<and> (\<not> allowed (fst (checkRateLimit key q now st)) \<longrightarrow>
         snd (checkRateLimit key q now st) = st)
   \<and> (1 \<le> q \<and> allowed (fst (checkRateLimit key q now st)) \<longrightarrow>
         (\<exists>r. snd (checkRateLimit key q now st) key = Some r \<and> count r \<le> q))
   \<and> (1 \<le> q \<and> count_within st key q \<longrightarrow>
         count_within (snd (run_checks key q ts st)) key q)"
proof (intro conjI allI impI)
  fix r
  assume "st key = Some r \<and> q \<le> count r \<and> now \<le> rate_record.resetTime r"
  then show "checkRateLimit key q now st =
      (\<lparr>allowed = False, remaining = 0, resetTime = rate_record.resetTime r\<rparr>, st)"
    by (simp add: checkRateLimit_exhausted)
next
  assume "\<not> allowed (fst (checkRateLimit key q now st))"
  then show "snd (checkRateLimit key q now st) = st"
    by (auto simp: checkRateLimit_def Let_def split: option.splits if_splits)
next
  assume "1 \<le> q \<and> allowed (fst (checkRateLimit key q now st))"
  then show "\<exists>r. snd (checkRateLimit key q now st) key = Some r \<and> count r \<le> q"
    by (auto simp: checkRateLimit_def Let_def split: option.splits if_splits)
next
  assume "1 \<le> q \<and> count_within st key q"
  then show "count_within (snd (run_checks key q ts st)) key q"
    by (simp add: run_checks_count_within)
qed

theorem rejected_call_witness:
  "checkRateLimit ''203.0.113.7'' 10 5000
     [''203.0.113.7'' \<mapsto> \<lparr>count = 10, rate_record.resetTime = 5000\<rparr>] =
     (\<lparr>allowed = False, remaining = 0, resetTime = 5000\<rparr>,
      [''203.0.113.7'' \<mapsto> \<lparr>count = 10, rate_record.resetTime = 5000\<rparr>])
   \<and> count_within (snd (checkRateLimit ''203.0.113.7'' 2 1000 Map.empty)) ''203.0.113.7'' 2
   \<and> count_within
        (snd (run_checks ''203.0.113.7'' 2 [1000, 1001, 1002, 1003] Map.empty)) ''203.0.113.7'' 2"
proof -
  let ?k = "''203.0.113.7''"
  let ?st = "[?k \<mapsto> \<lparr>count = 10, rate_record.resetTime = 5000\<rparr>]"
  have full: "checkRateLimit ?k 10 5000 ?st =
      (\<lparr>allowed = False, remaining = 0, resetTime = 5000\<rparr>, ?st)"
    using rejected_call_leaves_record [of ?st ?k 10 5000 "[]"] by simp
  have "allowed (fst (checkRateLimit ?k 2 1000 Map.empty))"
    by (simp add: checkRateLimit_def)
  then have "\<exists>r. snd (checkRateLimit ?k 2 1000 Map.empty) ?k = Some r \<and> count r \<le> 2"
    using rejected_call_leaves_record [of Map.empty ?k 2 1000 "[]"] by simp
  then have one: "count_within (snd (checkRateLimit ?k 2 1000 Map.empty)) ?k 2"
    by (auto simp: count_within_def)
  have run: "count_within (snd (run_checks ?k 2 [1000, 1001, 1002, 1003] Map.empty)) ?k 2"
    using rejected_call_leaves_record [of Map.empty ?k 2 1000 "[1000, 1001, 1002, 1003]"]
    by (simp add: count_within_def)
  from full one run show ?thesis by blast
qed

text \<open>
  Without the bound on the quota the last part fails: under quota 0 the first call for an
  identity is allowed and stores a count of 1, above the quota, and no call was rejected.
\<close>

theorem count_exceeds_zero_quota_counterexample:
  "count_within Map.empty ''203.0.113.7'' 0
   \<and> allowed (fst (checkRateLimit ''203.0.113.7'' 0 5000 Map.empty))
   \<and> snd (checkRateLimit ''203.0.113.7'' 0 5000 Map.empty) ''203.0.113.7'' =
       Some \<lparr>count = 1, rate_record.resetTime = 3605000\<rparr>
   \<and> \<not> count_within (snd (checkRateLimit ''203.0.113.7'' 0 5000 Map.empty)) ''203.0.113.7'' 0"
  by (simp add: checkRateLimit_def count_within_def WINDOW_MS_def)

subsection \<open>The first call of a window\<close>

text \<open>
  Claim C3. When the identity has no record, or the clock is past the stored
  \<open>resetTime\<close>, the call stores the record \<open>count = 1\<close>, \<open>resetTime = now + WINDOW_MS\<close> and
  returns \<open>allowed = true\<close> with \<open>remaining = quota - 1\<close>, whatever the count of the old
  record was.
\<close>

theorem expired_or_absent_record_is_replaced:
  assumes "st key = None \<or> (\<exists>r. st key = Some r \<and> rate_record.resetTime r < now)"
  shows "checkRateLimit key q now st =
     (\<lparr>allowed = True, remaining = q - 1, resetTime = now + WINDOW_MS\<rparr>,
      st(key \<mapsto> \<lparr>count = 1, rate_record.resetTime = now + WINDOW_MS\<rparr>))"
  using assms by (auto simp: checkRateLimit_def)

theorem expired_record_witness:
  "checkRateLimit ''203.0.113.7'' 10 5000
     [''203.0.113.7'' \<mapsto> \<lparr>count = 10, rate_record.resetTime = 4999\<rparr>] =
     (\<lparr>allowed = True, remaining = 9, resetTime = 3605000\<rparr>,
      [''203.0.113.7'' \<mapsto> \<lparr>count = 1, rate_record.resetTime = 3605000\<rparr>])"
  using expired_or_absent_record_is_replaced
    [of "[''203.0.113.7'' \<mapsto> \<lparr>count = 10, rate_record.resetTime = 4999\<rparr>]" "''203.0.113.7''" 5000 10]
  by (simp add: WINDOW_MS_def)

text \<open>
  Claim C10. For an identity with no record, or an expired one, and every quota \<open>q\<close>, zero
  and negative ones too, the call is allowed with \<open>remaining = q - 1\<close>; when \<open>q \<le> 0\<close> the
  returned \<open>remaining\<close> is negative and the stored count, 1, is above the quota.
\<close>

theorem first_call_allowed_for_any_quota:
  assumes "st key = None \<or> (\<exists>r. st key = Some r \<and> rate_record.resetTime r < now)"
  shows "allowed (fst (checkRateLimit key q now st))
       \<and> remaining (fst (checkRateLimit key q now st)) = q - 1
       \<and> (q \<le> 0 \<longrightarrow> remaining (fst (checkRateLimit key q now st)) < 0
                    \<and> (\<exists>r. snd (checkRateLimit key q now st) key = Some r
                           \<and> count r = 1 \<and> q < count r))"
  using assms by (auto simp: checkRateLimit_def)

theorem first_call_zero_quota_witness:
  "allowed (fst (checkRateLimit ''203.0.113.7'' 0 5000 Map.empty))
   \<and> remaining (fst (checkRateLimit ''203.0.113.7'' 0 5000 Map.empty)) = - 1
   \<and> snd (checkRateLimit ''203.0.113.7'' 0 5000 Map.empty) ''203.0.113.7'' =
       Some \<lparr>count = 1, rate_record.resetTime = 3605000\<rparr>"
  using first_call_allowed_for_any_quota [of Map.empty "''203.0.113.7''" 5000 0]
  by (simp add: checkRateLimit_def WINDOW_MS_def)

section \<open>Properties of the input validator\<close>

lemma dropWhile_all_iff: "(\<forall>x\<in>set (dropWhile P s). P x) \<longleftrightarrow> (\<forall>x\<in>set s. P x)"
  by (induction s) auto

text \<open>The trimmed length is 0 exactly for the strings made of whitespace alone.\<close>

lemma trim_Nil_iff: "trim s = [] \<longleftrightarrow> (\<forall>c\<in>set s. isWhiteSpace (unat c))"
  by (simp add: trim_def trimBy_def dropWhile_all_iff)

lemma validateInput_not_string:
  "typeof code \<noteq> ''string'' \<Longrightarrow> validateInput code = \<lparr>valid = False, error = Some ''Code is required''\<rparr>"
  by (simp add: validateInput_def)

lemma validateInput_string:
  "validateInput (JStr s) =
     (if s = [] then \<lparr>valid = False, error = Some ''Code is required''\<rparr>
      else if trim s = [] then \<lparr>valid = False, error = Some ''Code cannot be empty''\<rparr>
      else if length s > MAX_CODE_LENGTH then
        \<lparr>valid = False, error = Some ''Code is too long. Maximum 10000 characters allowed.''\<rparr>
      else \<lparr>valid = True, error = None\<rparr>)"
  by (simp add: validateInput_def)

lemma trim_replicate:
  "trim (replicate n c) = (if isWhiteSpace (unat c) then [] else replicate n c)"
  by (simp add: trim_def trimBy_def)

text \<open>
  Claim C4, as amended. \<^verbatim>\<open>validateInput\<close> applies its rules in order and the first
  failure decides: every input that is not a string, the absent one among them, and also
  the empty string, is rejected with "Code is required"; every non-empty string whose
  trimmed length is 0 is rejected with "Code cannot be empty", whatever its length.
\<close>

theorem validation_first_failure_wins:
  "(typeof code \<noteq> ''string'' \<longrightarrow>
      validateInput code = \<lparr>valid = False, error = Some ''Code is required''\<rparr>)
   \<and> validateInput JUndefined = \<lparr>valid = False, error = Some ''Code is required''\<rparr>
   \<and> validateInput (JStr []) = \<lparr>valid = False, error = Some ''Code is required''\<rparr>
   \<and> (s \<noteq> [] \<and> length (trim s) = 0 \<longrightarrow>
      validateInput (JStr s) = \<lparr>valid = False, error = Some ''Code cannot be empty''\<rparr>)"
  by (simp add: validateInput_not_string validateInput_string)

theorem validation_witness:
  "validateInput (JNum 42) = \<lparr>valid = False, error = Some ''Code is required''\<rparr>
   \<and> validateInput (JStr [0x20, 0x09, 0x0A, 0x3000]) =
       \<lparr>valid = False, error = Some ''Code cannot be empty''\<rparr>"
  using validation_first_failure_wins [of "JNum 42" "[0x20, 0x09, 0x0A, 0x3000]"]
  by (simp add: trim_def trimBy_def isWhiteSpace_def)

text \<open>
  The empty string has trimmed length 0, yet its message is not "Code cannot be empty":
  it is falsy, so the first test of the source, \<^verbatim>\<open>!code\<close>, already rejects it.
\<close>

theorem empty_string_counterexample:
  "length (trim []) = 0
   \<and> validateInput (JStr []) \<noteq> \<lparr>valid = False, error = Some ''Code cannot be empty''\<rparr>"
  by (simp add: validateInput_string trim_def trimBy_def)

text \<open>
  Claim C8, as amended. A string of exactly \<open>MAX_CODE_LENGTH\<close> (10,000) code units that is
  not made of whitespace alone is valid. A string of 10,001 code units is invalid: with
  the message stating the limit when it is not made of whitespace alone, and with "Code
  cannot be empty" when it is.
\<close>

theorem validation_length_boundary:
  "(length s = MAX_CODE_LENGTH \<and> trim s \<noteq> [] \<longrightarrow>
      validateInput (JStr s) = \<lparr>valid = True, error = None\<rparr>)
   \<and> (length s = MAX_CODE_LENGTH + 1 \<and> trim s \<noteq> [] \<longrightarrow>
      validateInput (JStr s) =
        \<lparr>valid = False, error = Some ''Code is too long. Maximum 10000 characters allowed.''\<rparr>)
   \<and> (length s = MAX_CODE_LENGTH + 1 \<and> trim s = [] \<longrightarrow>
      validateInput (JStr s) = \<lparr>valid = False, error = Some ''Code cannot be empty''\<rparr>)"
proof -
  have nonempty: "s \<noteq> []" if "length s = MAX_CODE_LENGTH + 1"
    using that by (cases s) simp_all
  have nonempty': "s \<noteq> []" if "trim s \<noteq> []"
    using that by (cases s) (simp_all add: trim_def trimBy_def)
  show ?thesis
    using nonempty nonempty' by (simp add: validateInput_string)
qed

theorem validation_length_witness:
  "validateInput (JStr (replicate 10000 0x61)) = \<lparr>valid = True, error = None\<rparr>
   \<and> validateInput (JStr (replicate 10001 0x61)) =
        \<lparr>valid = False, error = Some ''Code is too long. Maximum 10000 characters allowed.''\<rparr>
   \<and> validateInput (JStr (replicate 10001 0x20)) =
        \<lparr>valid = False, error = Some ''Code cannot be empty''\<rparr>"
proof -
  have a: "trim (replicate n (0x61 :: 16 word)) = replicate n 0x61" for n
    by (simp add: trim_replicate isWhiteSpace_def)
  have b: "trim (replicate n (0x20 :: 16 word)) = []" for n
    by (simp add: trim_replicate isWhiteSpace_def)
  show ?thesis
    using validation_length_boundary [of "replicate 10000 0x61"]
      validation_length_boundary [of "replicate 10001 0x61"]
      validation_length_boundary [of "replicate 10001 0x20"]
    by (simp add: a b MAX_CODE_LENGTH_def)
qed

text \<open>
  A string of 10,001 spaces is one code unit over the maximum, and the message it gets
  does not state the limit: the emptiness test comes first.
\<close>

theorem whitespace_over_limit_counterexample:
  "length (replicate 10001 (0x20 :: 16 word)) = 10001
   \<and> validateInput (JStr (replicate 10001 0x20)) =
        \<lparr>valid = False, error = Some ''Code cannot be empty''\<rparr>
   \<and> validateInput (JStr (replicate 10001 0x20)) \<noteq>
        \<lparr>valid = False, error = Some ''Code is too long. Maximum 10000 characters allowed.''\<rparr>"
  by (simp add: validateInput_string trim_replicate isWhiteSpace_def)

section \<open>Properties of the identity resolver\<close>

lemma split_not_Nil: "split sep s \<noteq> []"
  by (induction s) (auto split: list.splits)

lemma hd_split: "hd (split sep s) = takeWhile (\<lambda>c. c \<noteq> sep) s"
proof (induction s)
  case Nil
  then show ?case by simp
next
  case (Cons c cs)
  then show ?case
    using split_not_Nil [of sep cs] by (cases "split sep cs") auto
qed

text \<open>
  Claim C5, as amended. With a headers object, the resolver takes the first source that
  is present and non-empty, in this order: \<open>x-forwarded-for\<close> (of a string the part before
  the first comma, trimmed; of an array its first element), then \<open>x-real-ip\<close>, then the
  remote address of the socket; when none is present it returns \<open>local\<close>. Without a
  headers object the call throws a TypeError: \<open>unknown\<close> is only the initial value of
  the variable that every branch overwrites.
\<close>

theorem identity_resolution_precedence:
  "(headers req = None \<longrightarrow> getRateLimitKey req = Inl TypeError)
   \<and> (\<forall>h. headers req = Some h \<longrightarrow>
        (\<forall>s. h ''x-forwarded-for'' = Some (HStr s) \<and> s \<noteq> [] \<longrightarrow>
           getRateLimitKey req =
             Inr (KStr (trim_header (takeWhile (\<lambda>c. c \<noteq> CHR '','') s))))
      \<and> (\<forall>x xs. h ''x-forwarded-for'' = Some (HArr (x # xs)) \<longrightarrow>
           getRateLimitKey req = Inr (KStr x))
      \<and> (h ''x-forwarded-for'' = None \<or> h ''x-forwarded-for'' = Some (HStr []) \<longrightarrow>
           (\<forall>s. h ''x-real-ip'' = Some (HStr s) \<and> s \<noteq> [] \<longrightarrow>
              getRateLimitKey req = Inr (KStr s))
         \<and> (\<forall>x xs. h ''x-real-ip'' = Some (HArr (x # xs)) \<longrightarrow>
              getRateLimitKey req = Inr (KStr x))
         \<and> (h ''x-real-ip'' = None \<or> h ''x-real-ip'' = Some (HStr []) \<longrightarrow>
              (\<forall>sock a. socket req = Some sock \<and> remoteAddress sock = Some a \<and> a \<noteq> [] \<longrightarrow>
                 getRateLimitKey req = Inr (KStr a))
            \<and> (socket req = None
                 \<or> (\<exists>sock. socket req = Some sock
                       \<and> (remoteAddress sock = None \<or> remoteAddress sock = Some [])) \<longrightarrow>
                 getRateLimitKey req = Inr (KStr ''local'')))))"
  by (auto simp: getRateLimitKey_def hd_split)

theorem identity_resolution_witness:
  "getRateLimitKey \<lparr>headers = Some [''x-forwarded-for'' \<mapsto> HStr ''  203.0.113.7 , 10.0.0.1'',
                                      ''x-real-ip'' \<mapsto> HStr ''10.0.0.2''],
                    req_method = ''POST'', socket = Some \<lparr>remoteAddress = Some ''10.0.0.3''\<rparr>,
                    body = None\<rparr> = Inr (KStr ''203.0.113.7'')
   \<and> getRateLimitKey \<lparr>headers = Some [''x-real-ip'' \<mapsto> HStr ''10.0.0.2''],
                    req_method = ''POST'', socket = Some \<lparr>remoteAddress = Some ''10.0.0.3''\<rparr>,
                    body = None\<rparr> = Inr (KStr ''10.0.0.2'')
   \<and> getRateLimitKey \<lparr>headers = Some Map.empty,
                    req_method = ''POST'', socket = Some \<lparr>remoteAddress = Some ''10.0.0.3''\<rparr>,
                    body = None\<rparr> = Inr (KStr ''10.0.0.3'')
   \<and> getRateLimitKey \<lparr>headers = Some Map.empty,
                    req_method = ''POST'', socket = None, body = None\<rparr> = Inr (KStr ''local'')"
proof -
  let ?sock = "Some \<lparr>remoteAddress = Some ''10.0.0.3''\<rparr>"
  let ?r1 = "\<lparr>headers = Some [''x-forwarded-for'' \<mapsto> HStr ''  203.0.113.7 , 10.0.0.1'',
                                ''x-real-ip'' \<mapsto> HStr ''10.0.0.2''],
              req_method = ''POST'', socket = ?sock, body = None\<rparr>"
  let ?r2 = "\<lparr>headers = Some [''x-real-ip'' \<mapsto> HStr ''10.0.0.2''],
              req_method = ''POST'', socket = ?sock, body = None\<rparr>"
  let ?r3 = "\<lparr>headers = Some Map.empty, req_method = ''POST'', socket = ?sock, body = None\<rparr>"
  let ?r4 = "\<lparr>headers = Some Map.empty, req_method = ''POST'', socket = None, body = None\<rparr>"
  have "getRateLimitKey ?r1 =
      Inr (KStr (trim_header (takeWhile (\<lambda>c. c \<noteq> CHR '','') ''  203.0.113.7 , 10.0.0.1'')))"
    using identity_resolution_precedence [of ?r1] by simp
  then have a: "getRateLimitKey ?r1 = Inr (KStr ''203.0.113.7'')"
    by (simp add: trim_header_def trimBy_def isWhiteSpace_def)
  have b: "getRateLimitKey ?r2 = Inr (KStr ''10.0.0.2'')"
    using identity_resolution_precedence [of ?r2] by simp
  have c: "getRateLimitKey ?r3 = Inr (KStr ''10.0.0.3'')"
    using identity_resolution_precedence [of ?r3] by simp
  have d: "getRateLimitKey ?r4 = Inr (KStr ''local'')"
    using identity_resolution_precedence [of ?r4] by simp
  from a b c d show ?thesis by blast
qed

text \<open>
  A request whose headers object is absent makes the resolver throw; it does not return
  \<open>unknown\<close>.
\<close>

theorem absent_headers_counterexample:
  "getRateLimitKey \<lparr>headers = None, req_method = ''POST'', socket = None, body = None\<rparr>
     = Inl TypeError
   \<and> getRateLimitKey \<lparr>headers = None, req_method = ''POST'', socket = None, body = None\<rparr>
     \<noteq> Inr (KStr ''unknown'')"
  by (simp add: getRateLimitKey_def)

section \<open>Properties of the bot heuristic\<close>

lemma detectBot_string_agent:
  assumes "headers req = Some h" and "\<forall>a. h ''user-agent'' \<noteq> Some (HArr a)"
  shows "detectBot req =
     Inr (list_ex (includes_js (case h ''user-agent'' of Some (HStr s) \<Rightarrow> toLowerCase s | _ \<Rightarrow> []))
            botPatterns
          \<or> (\<not> truthy_header (h ''accept'') \<and> \<not> truthy_header (h ''accept-language'')
              \<and> \<not> truthy_header (h ''referer'') \<and> req_method req = ''POST''))"
proof (cases "h ''user-agent''")
  case None
  with assms show ?thesis by (auto simp: detectBot_def Let_def)
next
  case (Some v)
  with assms obtain s where "v = HStr s" by (cases v) auto
  with Some assms show ?thesis by (auto simp: detectBot_def Let_def)
qed

lemma truthy_header_iff: "truthy_header v \<longleftrightarrow> \<not> (v = None \<or> v = Some (HStr []))"
  by (cases v rule: truthy_header.cases) simp_all

lemma lower_curl: "toLowerCase ''Curl/8.0'' = ''curl/8.0''"
  by code_simp

lemma lower_mozilla: "toLowerCase ''Mozilla/5.0'' = ''mozilla/5.0''"
  by code_simp

lemma mozilla_not_listed: "\<not> list_ex (includes_js ''mozilla/5.0'') botPatterns"
  by (simp add: botPatterns_def)

text \<open>
  Claim C6, as amended. For a request with a headers object whose \<open>user-agent\<close> is a string
  or absent, \<^verbatim>\<open>detectBot\<close> returns true exactly when the lower-cased \<open>user-agent\<close> contains
  one of the patterns of the denylist, or the \<open>accept\<close> and the \<open>accept-language\<close> header
  are both absent or empty and the method is POST and the \<open>referer\<close> header is absent or
  empty: one disjunction of the denylist test with one conjunction of the header signals.
\<close>

theorem bot_heuristic_structure:
  assumes "headers req = Some h" and "\<forall>a. h ''user-agent'' \<noteq> Some (HArr a)"
  shows "detectBot req =
     Inr ((\<exists>pattern\<in>set botPatterns.
             includes_js (case h ''user-agent'' of Some (HStr s) \<Rightarrow> toLowerCase s | _ \<Rightarrow> []) pattern)
          \<or> ((h ''accept'' = None \<or> h ''accept'' = Some (HStr []))
              \<and> (h ''accept-language'' = None \<or> h ''accept-language'' = Some (HStr []))
              \<and> req_method req = ''POST''
              \<and> (h ''referer'' = None \<or> h ''referer'' = Some (HStr []))))"
  unfolding detectBot_string_agent [OF assms] truthy_header_iff list_ex_iff by auto

theorem bot_heuristic_witness:
  "detectBot \<lparr>headers = Some [''user-agent'' \<mapsto> HStr ''Curl/8.0'', ''accept'' \<mapsto> HStr ''*/*''],
              req_method = ''POST'', socket = None, body = None\<rparr> = Inr True
   \<and> detectBot \<lparr>headers = Some [''user-agent'' \<mapsto> HStr ''Mozilla/5.0'',
                                 ''accept'' \<mapsto> HStr ''text/html''],
              req_method = ''POST'', socket = None, body = None\<rparr> = Inr False
   \<and> detectBot \<lparr>headers = Some [''user-agent'' \<mapsto> HStr ''Mozilla/5.0''],
              req_method = ''POST'', socket = None, body = None\<rparr> = Inr True"
proof -
  let ?h1 = "[''user-agent'' \<mapsto> HStr ''Curl/8.0'', ''accept'' \<mapsto> HStr ''*/*'']"
  let ?h2 = "[''user-agent'' \<mapsto> HStr ''Mozilla/5.0'', ''accept'' \<mapsto> HStr ''text/html'']"
  let ?h3 = "[''user-agent'' \<mapsto> HStr ''Mozilla/5.0'']"
  have listed: "list_ex (includes_js ''curl/8.0'') botPatterns"
    by (simp add: botPatterns_def)
  have a: "detectBot \<lparr>headers = Some ?h1, req_method = ''POST'', socket = None, body = None\<rparr>
      = Inr True"
    using bot_heuristic_structure
      [of "\<lparr>headers = Some ?h1, req_method = ''POST'', socket = None, body = None\<rparr>" ?h1]
      listed
    by (simp add: lower_curl list_ex_iff)
  have b: "detectBot \<lparr>headers = Some ?h2, req_method = ''POST'', socket = None, body = None\<rparr>
      = Inr False"
    using bot_heuristic_structure
      [of "\<lparr>headers = Some ?h2, req_method = ''POST'', socket = None, body = None\<rparr>" ?h2]
      mozilla_not_listed
    by (simp add: lower_mozilla list_ex_iff)
  have c: "detectBot \<lparr>headers = Some ?h3, req_method = ''POST'', socket = None, body = None\<rparr>
      = Inr True"
    using bot_heuristic_structure
      [of "\<lparr>headers = Some ?h3, req_method = ''POST'', socket = None, body = None\<rparr>" ?h3]
    by simp
  from a b c show ?thesis by blast
qed

text \<open>
  "Absent" alone is too narrow: a POST with a browser's \<open>user-agent\<close> and an \<open>accept\<close>
  header that is present with an empty value is classified as a bot, although no pattern
  of the denylist occurs and the \<open>accept\<close> header is there.
\<close>

theorem empty_accept_counterexample:
  "detectBot \<lparr>headers = Some [''user-agent'' \<mapsto> HStr ''Mozilla/5.0'', ''accept'' \<mapsto> HStr []],
              req_method = ''POST'', socket = None, body = None\<rparr> = Inr True
   \<and> \<not> list_ex (includes_js (toLowerCase ''Mozilla/5.0'')) botPatterns
   \<and> [''user-agent'' \<mapsto> HStr ''Mozilla/5.0'', ''accept'' \<mapsto> HStr []] ''accept'' \<noteq> None"
  using mozilla_not_listed by (simp add: detectBot_def lower_mozilla)

section \<open>Properties across quotas and of the request handler\<close>

lemma checkRateLimit_other_key:
  "k' \<noteq> key \<Longrightarrow> snd (checkRateLimit key q now st) k' = st k'"
  by (simp add: checkRateLimit_def Let_def split: option.splits)

lemma checkRateLimit_allowed_store:
  "allowed (fst (checkRateLimit key q now st)) \<Longrightarrow>
   snd (checkRateLimit key q now st) =
     (case st key of
        None \<Rightarrow> st(key \<mapsto> \<lparr>count = 1, rate_record.resetTime = now + WINDOW_MS\<rparr>)
      | Some r \<Rightarrow>
          if rate_record.resetTime r < now
          then st(key \<mapsto> \<lparr>count = 1, rate_record.resetTime = now + WINDOW_MS\<rparr>)
          else st(key \<mapsto> r\<lparr>count := count r + 1\<rparr>))"
  by (auto simp: checkRateLimit_def Let_def split: option.splits if_splits)

lemma checkRateLimit_first:
  assumes "st key = None \<or> (\<exists>r. st key = Some r \<and> rate_record.resetTime r < t1)"
  shows "checkRateLimit key q1 t1 st =
      (\<lparr>allowed = True, remaining = q1 - 1, resetTime = t1 + WINDOW_MS\<rparr>,
       st(key \<mapsto> \<lparr>count = 1, rate_record.resetTime = t1 + WINDOW_MS\<rparr>))"
  using assms by (auto simp: checkRateLimit_absent checkRateLimit_expired)

lemma checkRateLimit_second:
  assumes "t2 \<le> t1 + WINDOW_MS" and "1 < q2"
  shows "checkRateLimit key q2 t2 (st(key \<mapsto> \<lparr>count = 1, rate_record.resetTime = t1 + WINDOW_MS\<rparr>)) =
      (\<lparr>allowed = True, remaining = q2 - 2, resetTime = t1 + WINDOW_MS\<rparr>,
       st(key \<mapsto> \<lparr>count = 2, rate_record.resetTime = t1 + WINDOW_MS\<rparr>))"
  using assms checkRateLimit_counted
    [of "st(key \<mapsto> \<lparr>count = 1, rate_record.resetTime = t1 + WINDOW_MS\<rparr>)" key
        "\<lparr>count = 1, rate_record.resetTime = t1 + WINDOW_MS\<rparr>" t2 q2]
  by simp

lemma handler_store:
  assumes "req_method req = ''POST''" and "detectBot req = Inr isBot"
    and "getRateLimitKey req = Inr k"
  shows "rateLimitStore (snd (handler rt now req s)) =
     snd (checkRateLimit k (effectiveMaxRequests isBot) now (rateLimitStore s))"
proof (cases "checkRateLimit k (effectiveMaxRequests isBot) now (rateLimitStore s)")
  case (Pair rl store')
  with assms show ?thesis
    by (simp add: handler_def Let_def split: option.splits outcome.splits)
qed

lemma effectiveMaxRequests_above_one: "1 < effectiveMaxRequests isBot"
  by (simp add: effectiveMaxRequests_def MAX_REQUESTS_def)

lemma handler_two_requests:
  assumes "req_method req1 = ''POST''" and "detectBot req1 = Inr b1"
    and "getRateLimitKey req1 = Inr k"
    and "req_method req2 = ''POST''" and "detectBot req2 = Inr b2"
    and "getRateLimitKey req2 = Inr k"
    and "rateLimitStore s k = None
         \<or> (\<exists>r. rateLimitStore s k = Some r \<and> rate_record.resetTime r < t1)"
    and "t2 \<le> t1 + WINDOW_MS"
  shows "rateLimitStore (snd (handler rt t2 req2 (snd (handler rt t1 req1 s)))) =
     (rateLimitStore s)(k \<mapsto> \<lparr>count = 2, rate_record.resetTime = t1 + WINDOW_MS\<rparr>)"
proof -
  have one: "checkRateLimit k (effectiveMaxRequests b1) t1 (rateLimitStore s) =
      (\<lparr>allowed = True, remaining = effectiveMaxRequests b1 - 1, resetTime = t1 + WINDOW_MS\<rparr>,
       (rateLimitStore s)(k \<mapsto> \<lparr>count = 1, rate_record.resetTime = t1 + WINDOW_MS\<rparr>))"
    using assms(7) by (rule checkRateLimit_first)
  have two: "checkRateLimit k (effectiveMaxRequests b2) t2
       ((rateLimitStore s)(k \<mapsto> \<lparr>count = 1, rate_record.resetTime = t1 + WINDOW_MS\<rparr>)) =
      (\<lparr>allowed = True, remaining = effectiveMaxRequests b2 - 2, resetTime = t1 + WINDOW_MS\<rparr>,
       (rateLimitStore s)(k \<mapsto> \<lparr>count = 2, rate_record.resetTime = t1 + WINDOW_MS\<rparr>))"
    using assms(8) effectiveMaxRequests_above_one by (rule checkRateLimit_second)
  have "rateLimitStore (snd (handler rt t1 req1 s)) =
      (rateLimitStore s)(k \<mapsto> \<lparr>count = 1, rate_record.resetTime = t1 + WINDOW_MS\<rparr>)"
    by (simp add: handler_store [OF assms(1-3)] one)
  then show ?thesis
    by (simp add: handler_store [OF assms(4-6)] two)
qed

lemma browser_request_not_bot: "detectBot browser_request = Inr False"
  using mozilla_not_listed by (simp add: detectBot_def browser_request_def lower_mozilla)

lemma browser_request_key: "getRateLimitKey browser_request = Inr (KStr ''203.0.113.7'')"
  by (simp add: getRateLimitKey_def browser_request_def trim_header_def trimBy_def isWhiteSpace_def)

lemma curl_request_bot: "detectBot curl_request = Inr True"
  by (simp add: detectBot_def curl_request_def lower_curl botPatterns_def)

lemma curl_request_key: "getRateLimitKey curl_request = Inr (KStr ''203.0.113.7'')"
  by (simp add: getRateLimitKey_def curl_request_def trim_header_def trimBy_def isWhiteSpace_def)



text \<open>
  Claim C9. The store is keyed by the identity alone and the window is the constant
  \<open>WINDOW_MS\<close>, whatever the quota: a call touches no record but the identity's; the
  record an allowed call writes, and the \<open>resetTime\<close> it returns, do not depend on the quota
  it was made with; a first call stores \<open>resetTime = now + WINDOW_MS\<close> under every quota;
  and a call under one quota followed, inside the window, by a call under another quota
  counts on the same record: the second call sees the first one's count and
  \<open>resetTime\<close>. The handler does the same with its two quotas: the store a POST request
  leaves is the one \<^verbatim>\<open>checkRateLimit\<close> returns for the resolved identity under the quota
  of the request's classification, and two POST requests of one identity, however each is
  classified (a bot and a human, in either order), the second inside the window the first
  opened, leave one record with count 2 and the first request's \<open>resetTime\<close>. So a
  bot-classified request and a human-classified request of one identity consume the same
  record.
\<close>

theorem one_record_per_identity:
  "(\<forall>k'. k' \<noteq> key \<longrightarrow> snd (checkRateLimit key q now st) k' = st k')
   \<and> (allowed (fst (checkRateLimit key q now st)) \<and> allowed (fst (checkRateLimit key q' now st)) \<longrightarrow>
        snd (checkRateLimit key q now st) = snd (checkRateLimit key q' now st)
        \<and> rate_result.resetTime (fst (checkRateLimit key q now st)) =
          rate_result.resetTime (fst (checkRateLimit key q' now st)))
   \<and> (st key = None \<or> (\<exists>r. st key = Some r \<and> rate_record.resetTime r < now) \<longrightarrow>
        snd (checkRateLimit key q now st) key =
          Some \<lparr>count = 1, rate_record.resetTime = now + WINDOW_MS\<rparr>)
   \<and> ((st key = None \<or> (\<exists>r. st key = Some r \<and> rate_record.resetTime r < t1))
        \<and> t2 \<le> t1 + WINDOW_MS \<and> 1 < q2 \<longrightarrow>
        (let (r1, st1) = checkRateLimit key q1 t1 st;
             (r2, st2) = checkRateLimit key q2 t2 st1
         in allowed r2 \<and> remaining r2 = q2 - 2
            \<and> rate_result.resetTime r2 = rate_result.resetTime r1
            \<and> st2 key = Some \<lparr>count = 2, rate_record.resetTime = t1 + WINDOW_MS\<rparr>))
   \<and> (req_method req = ''POST'' \<and> detectBot req = Inr isBot \<and> getRateLimitKey req = Inr k \<longrightarrow>
        rateLimitStore (snd (handler rt now req s)) =
          snd (checkRateLimit k (effectiveMaxRequests isBot) now (rateLimitStore s)))
   \<and> (req_method reqA = ''POST'' \<and> detectBot reqA = Inr botA \<and> getRateLimitKey reqA = Inr k
        \<and> req_method reqB = ''POST'' \<and> detectBot reqB = Inr botB \<and> getRateLimitKey reqB = Inr k
        \<and> (rateLimitStore s k = None
             \<or> (\<exists>r. rateLimitStore s k = Some r \<and> rate_record.resetTime r < tA))
        \<and> tB \<le> tA + WINDOW_MS \<longrightarrow>
        rateLimitStore (snd (handler rt tB reqB (snd (handler rt tA reqA s)))) =
          (rateLimitStore s)(k \<mapsto> \<lparr>count = 2, rate_record.resetTime = tA + WINDOW_MS\<rparr>))"
proof (intro conjI allI impI)
  fix k' assume "k' \<noteq> key"
  then show "snd (checkRateLimit key q now st) k' = st k'"
    by (rule checkRateLimit_other_key)
next
  assume both: "allowed (fst (checkRateLimit key q now st)) \<and> allowed (fst (checkRateLimit key q' now st))"
  then show "snd (checkRateLimit key q now st) = snd (checkRateLimit key q' now st)"
    by (simp add: checkRateLimit_allowed_store)
  from both show "rate_result.resetTime (fst (checkRateLimit key q now st)) =
      rate_result.resetTime (fst (checkRateLimit key q' now st))"
    by (auto simp: checkRateLimit_def Let_def split: option.splits if_splits)
next
  assume "st key = None \<or> (\<exists>r. st key = Some r \<and> rate_record.resetTime r < now)"
  then show "snd (checkRateLimit key q now st) key =
      Some \<lparr>count = 1, rate_record.resetTime = now + WINDOW_MS\<rparr>"
    by (simp add: checkRateLimit_first)
next
  assume h: "(st key = None \<or> (\<exists>r. st key = Some r \<and> rate_record.resetTime r < t1))
      \<and> t2 \<le> t1 + WINDOW_MS \<and> 1 < q2"
  then show "let (r1, st1) = checkRateLimit key q1 t1 st;
            (r2, st2) = checkRateLimit key q2 t2 st1
        in allowed r2 \<and> remaining r2 = q2 - 2
           \<and> rate_result.resetTime r2 = rate_result.resetTime r1
           \<and> st2 key = Some \<lparr>count = 2, rate_record.resetTime = t1 + WINDOW_MS\<rparr>"
    by (simp add: checkRateLimit_first checkRateLimit_second)
next
  assume "req_method req = ''POST'' \<and> detectBot req = Inr isBot \<and> getRateLimitKey req = Inr k"
  then show "rateLimitStore (snd (handler rt now req s)) =
      snd (checkRateLimit k (effectiveMaxRequests isBot) now (rateLimitStore s))"
    by (simp add: handler_store)
next
  assume "req_method reqA = ''POST'' \<and> detectBot reqA = Inr botA \<and> getRateLimitKey reqA = Inr k
      \<and> req_method reqB = ''POST'' \<and> detectBot reqB = Inr botB \<and> getRateLimitKey reqB = Inr k
      \<and> (rateLimitStore s k = None
           \<or> (\<exists>r. rateLimitStore s k = Some r \<and> rate_record.resetTime r < tA))
      \<and> tB \<le> tA + WINDOW_MS"
  then show "rateLimitStore (snd (handler rt tB reqB (snd (handler rt tA reqA s)))) =
      (rateLimitStore s)(k \<mapsto> \<lparr>count = 2, rate_record.resetTime = tA + WINDOW_MS\<rparr>)"
    by (intro handler_two_requests [of reqA botA k reqB botB s tA tB rt]) simp_all
qed

theorem shared_record_witness:
  "(let (r1, st1) = checkRateLimit (KStr ''203.0.113.7'') (effectiveMaxRequests True) 1000 Map.empty;
        (r2, st2) = checkRateLimit (KStr ''203.0.113.7'') (effectiveMaxRequests False) 2000 st1
    in allowed r2 \<and> remaining r2 = 8
       \<and> rate_result.resetTime r2 = rate_result.resetTime r1
       \<and> st2 (KStr ''203.0.113.7'') = Some \<lparr>count = 2, rate_record.resetTime = 3601000\<rparr>)
   \<and> detectBot curl_request = Inr True \<and> detectBot browser_request = Inr False
   \<and> rateLimitStore (snd (handler stub_runtime 2000 browser_request
         (snd (handler stub_runtime 1000 curl_request \<lparr>rateLimitStore = Map.empty, outbound = []\<rparr>)))) =
       [KStr ''203.0.113.7'' \<mapsto> \<lparr>count = 2, rate_record.resetTime = 3601000\<rparr>]
   \<and> rateLimitStore (snd (handler stub_runtime 2000 curl_request
         (snd (handler stub_runtime 1000 browser_request \<lparr>rateLimitStore = Map.empty, outbound = []\<rparr>)))) =
       [KStr ''203.0.113.7'' \<mapsto> \<lparr>count = 2, rate_record.resetTime = 3601000\<rparr>]"
proof -
  let ?k = "KStr ''203.0.113.7''"
  let ?s0 = "\<lparr>rateLimitStore = Map.empty, outbound = []\<rparr> :: server_state"
  have post: "req_method curl_request = ''POST''" "req_method browser_request = ''POST''"
    by (simp_all add: curl_request_def browser_request_def)
  have a: "let (r1, st1) = checkRateLimit ?k (effectiveMaxRequests True) 1000 Map.empty;
        (r2, st2) = checkRateLimit ?k (effectiveMaxRequests False) 2000 st1
    in allowed r2 \<and> remaining r2 = 8
       \<and> rate_result.resetTime r2 = rate_result.resetTime r1
       \<and> st2 ?k = Some \<lparr>count = 2, rate_record.resetTime = 3601000\<rparr>"
    using one_record_per_identity
      [where key = ?k and st = Map.empty and ?t1.0 = 1000 and ?t2.0 = 2000
         and ?q1.0 = "effectiveMaxRequests True" and ?q2.0 = "effectiveMaxRequests False",
       THEN conjunct2, THEN conjunct2, THEN conjunct2, THEN conjunct1]
    by (simp add: effectiveMaxRequests_def MAX_REQUESTS_def WINDOW_MS_def)
  have b: "rateLimitStore (snd (handler stub_runtime 2000 browser_request
        (snd (handler stub_runtime 1000 curl_request ?s0)))) =
      [?k \<mapsto> \<lparr>count = 2, rate_record.resetTime = 3601000\<rparr>]"
    using one_record_per_identity
      [where reqA = curl_request and botA = True and reqB = browser_request and botB = False
         and k = ?k and s = ?s0 and tA = 1000 and tB = 2000 and rt = stub_runtime,
       THEN conjunct2, THEN conjunct2, THEN conjunct2, THEN conjunct2, THEN conjunct2]
      post curl_request_bot curl_request_key browser_request_not_bot browser_request_key
    by (simp add: WINDOW_MS_def)
  have c: "rateLimitStore (snd (handler stub_runtime 2000 curl_request
        (snd (handler stub_runtime 1000 browser_request ?s0)))) =
      [?k \<mapsto> \<lparr>count = 2, rate_record.resetTime = 3601000\<rparr>]"
    using one_record_per_identity
      [where reqA = browser_request and botA = False and reqB = curl_request and botB = True
         and k = ?k and s = ?s0 and tA = 1000 and tB = 2000 and rt = stub_runtime,
       THEN conjunct2, THEN conjunct2, THEN conjunct2, THEN conjunct2, THEN conjunct2]
      post curl_request_bot curl_request_key browser_request_not_bot browser_request_key
    by (simp add: WINDOW_MS_def)
  from a b c curl_request_bot browser_request_not_bot show ?thesis by blast
qed




end
